theory Spec2Isabelle
  imports
    Main
    "HOL-Library.AList"
    "HOL-Library.Multiset"
    "HOL-Library.Sublist"
    "HOL-Library.List_Lexorder"
    "HOL-Library.Char_ord"
begin

section \<open>Python values\<close>

text \<open>
  The tracker of \<^verbatim>\<open>mangadex_downloader/tracker.py\<close> is dynamically typed: a record built
  from a parsed document stores whatever value the document gave to a field. The values
  are the ones \<^verbatim>\<open>json.loads\<close> produces: \<^verbatim>\<open>None\<close>, \<^verbatim>\<open>bool\<close>, \<^verbatim>\<open>int\<close>, \<^verbatim>\<open>str\<close>, \<^verbatim>\<open>list\<close>
  and \<^verbatim>\<open>dict\<close> with string keys. Numbers are Python's unbounded integers; number literals
  with a fraction or an exponent (Python floats) are not part of the model.

  A \<^verbatim>\<open>dict\<close> is an association list in insertion order, read with \<open>map_of\<close>: a key has
  the value of its first binding.
\<close>

datatype json =
    JNull
  | JBool bool
  | JInt int
  | JStr string
  | JArr "json list"
  | JObj "(string \<times> json) list"

text \<open>
  Python's \<^verbatim>\<open>==\<close> on these values: \<^verbatim>\<open>bool\<close> is a subtype of \<^verbatim>\<open>int\<close>, so \<^verbatim>\<open>True == 1\<close> and
  \<^verbatim>\<open>False == 0\<close>; lists are equal when they have equal elements position by position;
  dicts are equal when they have the same keys with equal values, in any order; values
  of different kinds are unequal. \<open>canon\<close> maps a value to the representative of its
  class (booleans as integers, dict items without shadowed bindings and sorted by key),
  and two values are \<^verbatim>\<open>==\<close> exactly when their representatives coincide.
\<close>

fun canon :: "json \<Rightarrow> json" where
  "canon JNull = JNull"
| "canon (JBool b) = JInt (if b then 1 else 0)"
| "canon (JInt n) = JInt n"
| "canon (JStr s) = JStr s"
| "canon (JArr xs) = JArr (map canon xs)"
| "canon (JObj kvs) =
     JObj (sort_key fst (AList.clearjunk (map (\<lambda>p. (fst p, canon (snd p))) kvs)))"

definition py_eq :: "json \<Rightarrow> json \<Rightarrow> bool" where
  "py_eq a b = (canon a = canon b)"

text \<open>The exceptions the tracker can raise.\<close>

datatype error =
    KeyError
  | TypeError
  | AttributeError
  | ValueError
  | OSError \<comment> \<open>what removing a file raises on a directory (\<^verbatim>\<open>IsADirectoryError\<close>)\<close>
  | PageError \<comment> \<open>the plain \<^verbatim>\<open>Exception\<close> of \<^verbatim>\<open>get_page_image\<close>\<close>

text \<open>\<^verbatim>\<open>data[key]\<close> with a string key: only a dict can be subscripted by a string.\<close>

fun py_getitem :: "json \<Rightarrow> string \<Rightarrow> error + json" where
  "py_getitem (JObj kvs) k = (case map_of kvs k of None \<Rightarrow> Inl KeyError | Some v \<Rightarrow> Inr v)"
| "py_getitem _ k = Inl TypeError"

text \<open>
  \<^verbatim>\<open>for i in value\<close>: a list yields its elements, a string its characters (as strings of
  length one), a dict its keys; anything else is not iterable.
\<close>

fun py_iter :: "json \<Rightarrow> error + json list" where
  "py_iter (JArr xs) = Inr xs"
| "py_iter (JStr s) = Inr (map (\<lambda>c. JStr [c]) s)"
| "py_iter (JObj kvs) = Inr (map (\<lambda>p. JStr (fst p)) (AList.clearjunk kvs))"
| "py_iter _ = Inl TypeError"

text \<open>Sequencing of computations that may raise, and a list comprehension over them.\<close>

definition bindE :: "error + 'a \<Rightarrow> ('a \<Rightarrow> error + 'b) \<Rightarrow> error + 'b" where
  "bindE m f = (case m of Inl e \<Rightarrow> Inl e | Inr v \<Rightarrow> f v)"

fun mapE :: "('a \<Rightarrow> error + 'b) \<Rightarrow> 'a list \<Rightarrow> error + 'b list" where
  "mapE f [] = Inr []"
| "mapE f (x # xs) = bindE (f x) (\<lambda>y. bindE (mapE f xs) (\<lambda>ys. Inr (y # ys)))"

text \<open>
  \<^verbatim>\<open>xs.remove(v)\<close>: deletes the first element equal to \<open>v\<close>; \<open>None\<close> stands for the
  \<^verbatim>\<open>ValueError\<close> raised when there is none. \<^verbatim>\<open>v in xs\<close>: some element is equal to \<open>v\<close>.
\<close>

fun py_remove :: "('a \<Rightarrow> 'a \<Rightarrow> bool) \<Rightarrow> 'a \<Rightarrow> 'a list \<Rightarrow> 'a list option" where
  "py_remove eq v [] = None"
| "py_remove eq v (x # xs) =
     (if eq x v then Some xs else map_option (\<lambda>ys. x # ys) (py_remove eq v xs))"

definition py_in :: "('a \<Rightarrow> 'a \<Rightarrow> bool) \<Rightarrow> 'a \<Rightarrow> 'a list \<Rightarrow> bool" where
  "py_in eq v xs = list_ex (\<lambda>x. eq x v) xs"

section \<open>Entity model\<close>

text \<open>\<^verbatim>\<open>_ImageInfo\<close>, \<^verbatim>\<open>_ChapterInfo\<close> and \<^verbatim>\<open>_FileInfo\<close>.\<close>

record image_info =
  im_name :: json
  im_hash :: json
  im_chapter_id :: json

record chapter_info =
  ch_name :: json
  ch_id :: json

record file_info =
  fi_name :: json
  fi_id :: json
  fi_hash :: json
  fi_completed :: json
  fi_images :: "image_info list option"
  fi_chapters :: "chapter_info list option"

definition ImageInfo :: "json \<Rightarrow> error + image_info" where
  "ImageInfo d =
     bindE (py_getitem d ''name'') (\<lambda>n.
     bindE (py_getitem d ''hash'') (\<lambda>h.
     bindE (py_getitem d ''chapter_id'') (\<lambda>c.
     Inr \<lparr>im_name = n, im_hash = h, im_chapter_id = c\<rparr>)))"

definition ChapterInfo :: "json \<Rightarrow> error + chapter_info" where
  "ChapterInfo d =
     bindE (py_getitem d ''name'') (\<lambda>n.
     bindE (py_getitem d ''id'') (\<lambda>i.
     Inr \<lparr>ch_name = n, ch_id = i\<rparr>))"

definition FileInfo :: "json \<Rightarrow> error + file_info" where
  "FileInfo d =
     bindE (py_getitem d ''name'') (\<lambda>n.
     bindE (py_getitem d ''id'') (\<lambda>i.
     bindE (py_getitem d ''hash'') (\<lambda>h.
     bindE (py_getitem d ''completed'') (\<lambda>c.
     bindE (py_getitem d ''images'') (\<lambda>images.
     bindE (if images \<noteq> JNull
            then bindE (py_iter images) (\<lambda>its. bindE (mapE ImageInfo its) (\<lambda>ims. Inr (Some ims)))
            else Inr None) (\<lambda>ims.
     bindE (py_getitem d ''chapters'') (\<lambda>chapters.
     bindE (if chapters \<noteq> JNull
            then bindE (py_iter chapters) (\<lambda>its. bindE (mapE ChapterInfo its) (\<lambda>chs. Inr (Some chs)))
            else Inr None) (\<lambda>chs.
     Inr \<lparr>fi_name = n, fi_id = i, fi_hash = h, fi_completed = c,
          fi_images = ims, fi_chapters = chs\<rparr>))))))))"

text \<open>
  The \<^verbatim>\<open>__eq__\<close> methods compare the \<^verbatim>\<open>data\<close> dicts, that is all fields. A
  \<^verbatim>\<open>_ChapterInfo\<close> compared with a string compares its \<^verbatim>\<open>id\<close>; compared with anything
  else that is not a \<^verbatim>\<open>_ChapterInfo\<close> the method returns \<^verbatim>\<open>None\<close>, which is false.
\<close>

definition image_eq :: "image_info \<Rightarrow> image_info \<Rightarrow> bool" where
  "image_eq a b =
     (py_eq (im_name a) (im_name b) \<and> py_eq (im_hash a) (im_hash b) \<and>
      py_eq (im_chapter_id a) (im_chapter_id b))"

definition chapter_eq :: "chapter_info \<Rightarrow> chapter_info \<Rightarrow> bool" where
  "chapter_eq a b = (py_eq (ch_name a) (ch_name b) \<and> py_eq (ch_id a) (ch_id b))"

fun chapter_eq_value :: "chapter_info \<Rightarrow> json \<Rightarrow> bool" where
  "chapter_eq_value c (JStr s) = py_eq (ch_id c) (JStr s)"
| "chapter_eq_value c _ = False"

definition file_eq :: "file_info \<Rightarrow> file_info \<Rightarrow> bool" where
  "file_eq a b =
     (py_eq (fi_name a) (fi_name b) \<and> py_eq (fi_id a) (fi_id b) \<and>
      py_eq (fi_hash a) (fi_hash b) \<and> py_eq (fi_completed a) (fi_completed b) \<and>
      rel_option (list_all2 image_eq) (fi_images a) (fi_images b) \<and>
      rel_option (list_all2 chapter_eq) (fi_chapters a) (fi_chapters b))"

section \<open>The tracker state\<close>

text \<open>
  \<^verbatim>\<open>self.data\<close> is \<^verbatim>\<open>{}\<close> when the object is created, later the root dict, and \<^verbatim>\<open>False\<close>
  when \<^verbatim>\<open>_check_data\<close> returned it. A dict is held as its entries other than
  \<^verbatim>\<open>"files"\<close> together with the value under \<^verbatim>\<open>"files"\<close> (\<open>None\<close>: the key is absent), which
  after validation is a list of \<^verbatim>\<open>_FileInfo\<close> objects.
\<close>

datatype ledger =
    LFalse
  | LDict "(string \<times> json) list" "file_info list option"

definition comment :: json where
  "comment = JArr [JStr ''DO NOT EDIT THIS FILE'', JStr ''UNLESS YOU KNOW WHAT YOU'RE DOING'']"

definition default_data :: ledger where
  "default_data = LDict [(''comment'', comment)] (Some [])"

text \<open>
  What the tracker does to its surroundings is recorded as a trace, in the order of the
  calls: the queue worker (\<^verbatim>\<open>QueueWorker\<close>, from \<^verbatim>\<open>utils\<close>), the file system and the log.
  \<open>TrackerDir\<close> is \<^verbatim>\<open>self.path\<close> (the manga directory), \<open>TrackerFile\<close> is \<^verbatim>\<open>self.file\<close> (the
  file \<^verbatim>\<open>downloaded-{fmt}.json\<close> inside it).
\<close>

datatype location = TrackerDir | TrackerFile

datatype effect =
    QueueStart
  | QueueShutdown
  | QueueSubmit \<comment> \<open>a job that serialises the data and writes \<^verbatim>\<open>self.file\<close>\<close>
  | FileExists
  | FileRead
  | WriteText location
  | DeleteFile location
  | LogError nat
  | LogWarning nat

record tracker =
  no_track :: bool \<comment> \<open>\<^verbatim>\<open>config.no_track\<close>\<close>
  unlink_dir :: "error option" \<comment> \<open>the outcome of \<^verbatim>\<open>delete_file\<close> on a directory, see below\<close>
  data :: ledger
  effects :: "effect list"

text \<open>
  An operation either returns a value or raises; in both cases the tracker is left in
  the state reached so far.
\<close>

datatype 'a result = Ok 'a tracker | Raise error tracker

fun state_of :: "'a result \<Rightarrow> tracker" where
  "state_of (Ok v s) = s"
| "state_of (Raise e s) = s"

definition emit :: "effect \<Rightarrow> tracker \<Rightarrow> tracker" where
  "emit e s = s\<lparr>effects := effects s @ [e]\<rparr>"

definition disabled :: "tracker \<Rightarrow> bool" where
  "disabled s = no_track s"

text \<open>
  Modelled from the spec: \<^verbatim>\<open>delete_file\<close> and \<^verbatim>\<open>QueueWorker\<close> live in \<^verbatim>\<open>utils\<close>, which is
  not among the sources. The spec gives a FIFO job queue with start, submit and shutdown,
  whose calls return normally, and an idempotent file-delete primitive: handed the path
  of the tracker file it returns normally, whether the file exists or not. The spec does
  not say what the primitive does when it is handed a directory, which is what
  \<^verbatim>\<open>_check_data\<close> hands it (\<^verbatim>\<open>self.path\<close>). That outcome is a parameter of the model,
  the field \<open>unlink_dir\<close>: \<open>None\<close> when the call returns, \<open>Some e\<close> when it raises \<open>e\<close>. The
  call appears in the trace in both cases.
\<close>

fun delete_file :: "location \<Rightarrow> tracker \<Rightarrow> unit result" where
  "delete_file TrackerFile s = Ok () (emit (DeleteFile TrackerFile) s)"
| "delete_file TrackerDir s =
     (case unlink_dir s of
        None \<Rightarrow> Ok () (emit (DeleteFile TrackerDir) s)
      | Some e \<Rightarrow> Raise e (emit (DeleteFile TrackerDir) s))"

definition shutdown :: "tracker \<Rightarrow> unit result" where
  "shutdown s = (if disabled s then Ok () s else Ok () (emit QueueShutdown s))"

definition write_new :: "tracker \<Rightarrow> ledger \<times> tracker" where
  "write_new s =
     (default_data, if \<not> disabled s then emit (WriteText TrackerFile) s else s)"

definition recreate :: "tracker \<Rightarrow> unit result" where
  "recreate s =
     (if disabled s then Ok () s
      else (case delete_file TrackerFile s of
              Raise e s1 \<Rightarrow> Raise e s1
            | Ok u s1 \<Rightarrow> (let (d, s2) = write_new s1 in Ok () (s2\<lparr>data := d\<rparr>))))"

text \<open>\<^verbatim>\<open>_write\<close>: the job is only queued here; it serialises the data when the worker runs it.\<close>

definition write_data :: "tracker \<Rightarrow> tracker" where
  "write_data s = (if disabled s then s else emit QueueSubmit s)"

text \<open>\<^verbatim>\<open>self.data["files"]\<close>, and the assignment of a new list to it.\<close>

fun files_of :: "ledger \<Rightarrow> error + file_info list" where
  "files_of LFalse = Inl TypeError"
| "files_of (LDict other None) = Inl KeyError"
| "files_of (LDict other (Some fs)) = Inr fs"

fun set_files :: "file_info list \<Rightarrow> ledger \<Rightarrow> ledger" where
  "set_files fs LFalse = LFalse"
| "set_files fs (LDict other old) = LDict other (Some fs)"

definition empty :: "tracker \<Rightarrow> error + bool" where
  "empty s = bindE (files_of (data s)) (\<lambda>fs. Inr (length fs = 0))"

section \<open>Queries and mutations\<close>

text \<open>
  \<^verbatim>\<open>get\<close> walks the whole list and keeps the last record whose name is equal to the
  argument. The object it returns is the one stored in the list, so the model keeps its
  position: the mutations below change the record at that position.
\<close>

fun get_loop :: "json \<Rightarrow> file_info list \<Rightarrow> nat \<Rightarrow> nat option \<Rightarrow> nat option" where
  "get_loop name [] i file_info = file_info"
| "get_loop name (fi # fs) i file_info =
     get_loop name fs (Suc i) (if py_eq (fi_name fi) name then Some i else file_info)"

definition get_index :: "json \<Rightarrow> file_info list \<Rightarrow> nat option" where
  "get_index name fs = get_loop name fs 0 None"

definition get :: "tracker \<Rightarrow> json \<Rightarrow> error + file_info option" where
  "get s name =
     bindE (files_of (data s)) (\<lambda>fs. Inr (map_option (\<lambda>i. fs ! i) (get_index name fs)))"

text \<open>
  \<^verbatim>\<open>remove_file_info_from_name\<close> removes from the list it is iterating over. The list
  iterator under \<^verbatim>\<open>filter\<close> holds a position \<open>i\<close>: it stops when \<open>i\<close> is not below the
  current length, and otherwise yields the element at \<open>i\<close> and moves to \<open>i + 1\<close>.
  \<^verbatim>\<open>files.remove(fi)\<close> deletes the first record equal to \<open>fi\<close>.
\<close>

function remove_loop :: "json \<Rightarrow> nat \<Rightarrow> file_info list \<Rightarrow> error + file_info list" where
  "remove_loop name i files =
     (if i < length files
      then (if py_eq (fi_name (files ! i)) name
            then (case py_remove file_eq (files ! i) files of
                    None \<Rightarrow> Inl ValueError
                  | Some files' \<Rightarrow> remove_loop name (Suc i) files')
            else remove_loop name (Suc i) files)
      else Inr files)"
  by pat_completeness auto
termination
proof (relation "measure (\<lambda>(name, i, files). length files - i)")
  have shorter: "py_remove eq v xs = Some ys \<Longrightarrow> length ys < length xs"
    for eq :: "file_info \<Rightarrow> file_info \<Rightarrow> bool" and v xs ys
    by (induction xs arbitrary: ys) (auto split: if_splits)
  fix name :: json and i :: nat and files files' :: "file_info list"
  assume "i < length files" and "py_remove file_eq (files ! i) files = Some files'"
  then show "((name, Suc i, files'), (name, i, files))
               \<in> measure (\<lambda>(name, i, files). length files - i)"
    using shorter [of file_eq "files ! i" files files'] by simp
qed auto

declare remove_loop.simps [simp del]

definition remove_file_info_from_name :: "tracker \<Rightarrow> json \<Rightarrow> unit result" where
  "remove_file_info_from_name s name =
     (case files_of (data s) of
        Inl e \<Rightarrow> Raise e s
      | Inr files \<Rightarrow>
          (case remove_loop name 0 files of
             Inl e \<Rightarrow> Raise e s
           | Inr files' \<Rightarrow> Ok () (s\<lparr>data := set_files files' (data s)\<rparr>)))"

definition add_file_info :: "tracker \<Rightarrow> json \<Rightarrow> json \<Rightarrow> json \<Rightarrow> bool \<Rightarrow> bool \<Rightarrow> file_info result" where
  "add_file_info s name fid fhash null_images null_chapters =
     (case files_of (data s) of
        Inl e \<Rightarrow> Raise e s
      | Inr files \<Rightarrow>
          (case FileInfo (JObj
                  [(''name'', name), (''id'', fid), (''hash'', fhash),
                   (''completed'', JBool False),
                   (''images'', if null_images then JNull else JArr []),
                   (''chapters'', if null_chapters then JNull else JArr [])]) of
             Inl e \<Rightarrow> Raise e s
           | Inr file_info \<Rightarrow>
               Ok file_info (write_data (s\<lparr>data := set_files (files @ [file_info]) (data s)\<rparr>))))"

text \<open>
  The page number of an image: \<^verbatim>\<open>re.search\<close> with the pattern
  \<^verbatim>\<open>(?P<page>[0-9]{1,})\..{1,}\<close> finds the leftmost position where a run of digits is
  followed by a dot and by at least one character other than a newline. The digits are
  matched greedily; a shorter run cannot match, because the character after it is a
  digit and not a dot.
\<close>

definition is_digit :: "char \<Rightarrow> bool" where
  "is_digit c = (c \<in> set ''0123456789'')"

definition match_page :: "string \<Rightarrow> string option" where
  "match_page s =
     (let page = takeWhile is_digit s; rest = dropWhile is_digit s
      in if page = [] then None
         else (case rest of
                 c # d # _ \<Rightarrow> if c = CHR ''.'' \<and> d \<noteq> CHR 0x0A then Some page else None
               | _ \<Rightarrow> None))"

fun re_search :: "string \<Rightarrow> string option" where
  "re_search [] = match_page []"
| "re_search (c # s) =
     (case match_page (c # s) of Some page \<Rightarrow> Some page | None \<Rightarrow> re_search s)"

text \<open>\<^verbatim>\<open>int(page)\<close> on a string of decimal digits.\<close>

definition py_int :: "string \<Rightarrow> int" where
  "py_int ds = foldl (\<lambda>n c. 10 * n + (int (of_char c) - 48)) 0 ds"

definition get_page_image :: "image_info \<Rightarrow> error + int" where
  "get_page_image im_info =
     (case im_name im_info of
        JStr s \<Rightarrow>
          (case re_search s of
             None \<Rightarrow> Inl PageError
           | Some page \<Rightarrow> Inr (py_int page))
      | _ \<Rightarrow> Inl TypeError)"

text \<open>
  \<^verbatim>\<open>sorted(xs, key=f)\<close> computes the key of every element, from left to right, and then
  sorts stably by the keys.
\<close>

definition py_sorted :: "('a \<Rightarrow> error + int) \<Rightarrow> 'a list \<Rightarrow> error + 'a list" where
  "py_sorted f xs =
     bindE (mapE f xs) (\<lambda>keys. Inr (map snd (sort_key fst (zip keys xs))))"

definition set_file :: "nat \<Rightarrow> file_info \<Rightarrow> tracker \<Rightarrow> tracker" where
  "set_file i fi s =
     (case data s of
        LDict other (Some files) \<Rightarrow> s\<lparr>data := LDict other (Some (files[i := fi]))\<rparr>
      | _ \<Rightarrow> s)"

text \<open>
  \<^verbatim>\<open>self.get(name)\<close> as the position of the record, for the operations that change the
  record afterwards; \<open>None\<close> is Python's \<^verbatim>\<open>None\<close>.
\<close>

definition get_ref :: "tracker \<Rightarrow> json \<Rightarrow> error + (nat \<times> file_info) option" where
  "get_ref s name =
     bindE (files_of (data s))
       (\<lambda>fs. Inr (map_option (\<lambda>i. (i, fs ! i)) (get_index name fs)))"

definition add_image_info :: "tracker \<Rightarrow> json \<Rightarrow> json \<Rightarrow> json \<Rightarrow> json \<Rightarrow> unit result" where
  "add_image_info s name img_name fhash chap_id =
     (case get_ref s name of
        Inl e \<Rightarrow> Raise e s
      | Inr None \<Rightarrow> Raise AttributeError s
      | Inr (Some (i, file_info)) \<Rightarrow>
          (let im_info = \<lparr>im_name = img_name, im_hash = fhash, im_chapter_id = chap_id\<rparr>
           in case fi_images file_info of
                None \<Rightarrow> Raise AttributeError s
              | Some images \<Rightarrow>
                  (let removed = (case py_remove image_eq im_info images of
                                    None \<Rightarrow> images
                                  | Some images' \<Rightarrow> images');
                       appended = removed @ [im_info];
                       s1 = set_file i (file_info\<lparr>fi_images := Some appended\<rparr>) s
                   in case py_sorted get_page_image appended of
                        Inl e \<Rightarrow> Raise e s1
                      | Inr reordered \<Rightarrow>
                          Ok () (write_data
                                   (set_file i (file_info\<lparr>fi_images := Some reordered\<rparr>) s1)))))"

definition add_chapter_info :: "tracker \<Rightarrow> json \<Rightarrow> json \<Rightarrow> json \<Rightarrow> unit result" where
  "add_chapter_info s name chapter_name chapter_id =
     (case get_ref s name of
        Inl e \<Rightarrow> Raise e s
      | Inr None \<Rightarrow> Raise AttributeError s
      | Inr (Some (i, file_info)) \<Rightarrow>
          (case fi_chapters file_info of
             None \<Rightarrow> Raise TypeError s
           | Some chapters \<Rightarrow>
               if list_ex (\<lambda>c. chapter_eq_value c chapter_id) chapters then Ok () s
               else (let ch_info = \<lparr>ch_name = chapter_name, ch_id = chapter_id\<rparr>
                     in Ok () (write_data
                                 (set_file i
                                    (file_info\<lparr>fi_chapters := Some (chapters @ [ch_info])\<rparr>) s)))))"

definition toggle_complete :: "tracker \<Rightarrow> json \<Rightarrow> json \<Rightarrow> unit result" where
  "toggle_complete s name is_complete =
     (case get_ref s name of
        Inl e \<Rightarrow> Raise e s
      | Inr None \<Rightarrow> Raise AttributeError s
      | Inr (Some (i, file_info)) \<Rightarrow>
          Ok () (write_data (set_file i (file_info\<lparr>fi_completed := is_complete\<rparr>) s)))"

section \<open>Loading and validation\<close>

text \<open>
  \<^verbatim>\<open>_check_data\<close> returns \<^verbatim>\<open>False\<close>, the new default data, or the dict it was given with
  its \<^verbatim>\<open>"files"\<close> replaced. Only \<^verbatim>\<open>KeyError\<close> is caught; any other exception leaves the
  function. The loop over \<^verbatim>\<open>enumerate(files)\<close> carries the index and \<^verbatim>\<open>new_files\<close>.
\<close>

datatype checked = Kept "file_info list" | Recreated ledger

fun check_loop :: "nat \<Rightarrow> json list \<Rightarrow> file_info list \<Rightarrow> tracker \<Rightarrow> checked result" where
  "check_loop index [] new_files s = Ok (Kept new_files) s"
| "check_loop index (file # files) new_files s =
     (case FileInfo file of
        Inl e \<Rightarrow>
          if e = KeyError
          then (case delete_file TrackerDir (emit (LogError index) s) of
                  Raise e' s1 \<Rightarrow> Raise e' s1
                | Ok u s1 \<Rightarrow> (let (d, s2) = write_new s1 in Ok (Recreated d) s2))
          else Raise e s
      | Inr fi \<Rightarrow>
          if py_in file_eq fi new_files
          then check_loop (Suc index) files new_files (emit (LogWarning index) s)
          else check_loop (Suc index) files (new_files @ [fi]) s)"

fun other_items :: "json \<Rightarrow> (string \<times> json) list" where
  "other_items (JObj kvs) = filter (\<lambda>p. fst p \<noteq> ''files'') kvs"
| "other_items _ = []"

definition check_data :: "json \<Rightarrow> tracker \<Rightarrow> ledger result" where
  "check_data d s =
     (case py_getitem d ''files'' of
        Inl e \<Rightarrow> if e = KeyError then Ok LFalse s else Raise e s
      | Inr files \<Rightarrow>
          (case py_iter files of
             Inl e \<Rightarrow> Raise e s
           | Inr entries \<Rightarrow>
               (case check_loop 0 entries [] s of
                  Raise e s' \<Rightarrow> Raise e s'
                | Ok (Recreated d') s' \<Rightarrow> Ok d' s'
                | Ok (Kept new_files) s' \<Rightarrow> Ok (LDict (other_items d) (Some new_files)) s')))"

text \<open>
  What \<^verbatim>\<open>_load\<close> finds: no file, a file whose content \<^verbatim>\<open>json_lib.loads\<close> rejects with
  \<^verbatim>\<open>JSONDecodeError\<close>, or a file that parses to a value.
\<close>

datatype disk = NoFile | Unparsable | Parsed json

fun load :: "disk \<Rightarrow> tracker \<Rightarrow> unit result" where
  "load NoFile s =
     (let (d, s1) = write_new (emit FileExists s) in Ok () (s1\<lparr>data := d\<rparr>))"
| "load Unparsable s =
     (let (d, s1) = write_new (emit FileRead (emit FileExists s)) in Ok () s1)"
| "load (Parsed j) s =
     (case check_data j (emit FileRead (emit FileExists s)) of
        Raise e s' \<Rightarrow> Raise e s'
      | Ok d s' \<Rightarrow> Ok () ((write_data s')\<lparr>data := d\<rparr>))"

text \<open>
  \<^verbatim>\<open>__init__\<close>, with the flag \<^verbatim>\<open>config.no_track\<close>, the outcome of \<^verbatim>\<open>delete_file\<close> on a
  directory, and the state of the disk.
\<close>

definition init :: "bool \<Rightarrow> error option \<Rightarrow> disk \<Rightarrow> unit result" where
  "init flag unlink dsk =
     (let s = \<lparr>no_track = flag, unlink_dir = unlink, data = LDict [] None, effects = []\<rparr>
      in if no_track s
         then (let (d, s1) = write_new s in Ok () (s1\<lparr>data := d\<rparr>))
         else load dsk (emit QueueStart s))"

section \<open>Runs of operations\<close>

text \<open>
  The calls the download pipeline can make on a tracker. A run applies them in order;
  after a call that raised, the tracker is in the state that call left it in.
\<close>

datatype operation =
    AddFile json json json bool bool
  | AddImage json json json json
  | AddChapter json json json
  | ToggleComplete json json
  | RemoveFile json
  | Recreate
  | Shutdown

fun exec :: "operation \<Rightarrow> tracker \<Rightarrow> tracker" where
  "exec (AddFile name fid fhash ni nc) s = state_of (add_file_info s name fid fhash ni nc)"
| "exec (AddImage name img_name fhash chap_id) s =
     state_of (add_image_info s name img_name fhash chap_id)"
| "exec (AddChapter name chapter_name chapter_id) s =
     state_of (add_chapter_info s name chapter_name chapter_id)"
| "exec (ToggleComplete name is_complete) s = state_of (toggle_complete s name is_complete)"
| "exec (RemoveFile name) s = state_of (remove_file_info_from_name s name)"
| "exec Recreate s = state_of (recreate s)"
| "exec Shutdown s = state_of (shutdown s)"

definition run :: "operation list \<Rightarrow> tracker \<Rightarrow> tracker" where
  "run ops s = foldl (\<lambda>s' op. exec op s') s ops"

section \<open>Reference functions for the validation pass\<close>

text \<open>
  The first occurrences in a sequence, for an equality \<open>eq\<close>: an element is kept when no
  element before it in the sequence, kept or not, is equal to it. \<open>seen\<close> holds the
  elements already passed.
\<close>

fun first_occurrences :: "('a \<Rightarrow> 'a \<Rightarrow> bool) \<Rightarrow> 'a list \<Rightarrow> 'a list \<Rightarrow> 'a list" where
  "first_occurrences eq seen [] = []"
| "first_occurrences eq seen (x # xs) =
     (if list_ex (\<lambda>y. eq y x) seen then first_occurrences eq (seen @ [x]) xs
      else x # first_occurrences eq (seen @ [x]) xs)"

section \<open>Example inputs\<close>

text \<open>
  Two entries of a tracker file with the same name and different ids, the records built
  from them, and a document that holds both.
\<close>

definition entry_x1 :: json where
  "entry_x1 = JObj [(''name'', JStr ''X''), (''id'', JStr ''1''), (''hash'', JNull),
                    (''completed'', JBool False), (''images'', JNull), (''chapters'', JNull)]"

definition entry_x2 :: json where
  "entry_x2 = JObj [(''name'', JStr ''X''), (''id'', JStr ''2''), (''hash'', JNull),
                    (''completed'', JBool False), (''images'', JNull), (''chapters'', JNull)]"

definition file_x1 :: file_info where
  "file_x1 = \<lparr>fi_name = JStr ''X'', fi_id = JStr ''1'', fi_hash = JNull,
              fi_completed = JBool False, fi_images = None, fi_chapters = None\<rparr>"

definition file_x2 :: file_info where
  "file_x2 = \<lparr>fi_name = JStr ''X'', fi_id = JStr ''2'', fi_hash = JNull,
              fi_completed = JBool False, fi_images = None, fi_chapters = None\<rparr>"

definition doc_two_x :: json where
  "doc_two_x = JObj [(''comment'', comment), (''files'', JArr [entry_x1, entry_x2])]"

text \<open>A volume record that tracks one chapter.\<close>

definition file_vol :: file_info where
  "file_vol = \<lparr>fi_name = JStr ''Vol. 1'', fi_id = JNull, fi_hash = JNull,
               fi_completed = JBool False, fi_images = None,
               fi_chapters = Some [\<lparr>ch_name = JStr ''Ch. 1'', ch_id = JStr ''id1''\<rparr>]\<rparr>"

text \<open>
  Two image records, a chapter record that tracks its pages and has none yet, and the
  same record holding the first image twice, with the document it is loaded from.
\<close>

definition img_1 :: image_info where
  "img_1 = \<lparr>im_name = JStr ''1.png'', im_hash = JStr ''h1'', im_chapter_id = JStr ''abc''\<rparr>"

definition img_2 :: image_info where
  "img_2 = \<lparr>im_name = JStr ''2.png'', im_hash = JStr ''h2'', im_chapter_id = JStr ''abc''\<rparr>"

definition file_ch1 :: file_info where
  "file_ch1 = \<lparr>fi_name = JStr ''Ch.1'', fi_id = JStr ''abc'', fi_hash = JNull,
               fi_completed = JBool False, fi_images = Some [], fi_chapters = None\<rparr>"

definition file_dup :: file_info where
  "file_dup = file_ch1\<lparr>fi_images := Some [img_1, img_1]\<rparr>"

definition entry_img_1 :: json where
  "entry_img_1 = JObj [(''name'', JStr ''1.png''), (''hash'', JStr ''h1''),
                       (''chapter_id'', JStr ''abc'')]"

definition doc_dup_images :: json where
  "doc_dup_images =
     JObj [(''comment'', comment),
           (''files'', JArr [JObj [(''name'', JStr ''Ch.1''), (''id'', JStr ''abc''),
                                   (''hash'', JNull), (''completed'', JBool False),
                                   (''images'', JArr [entry_img_1, entry_img_1]),
                                   (''chapters'', JNull)]])]"

text \<open>
  Documents for the validation pass: one that repeats its first entry after the second,
  one whose second entry has no \<^verbatim>\<open>id\<close>, and one whose only entry has no \<^verbatim>\<open>chapters\<close> and
  a number where the list of images should be.
\<close>

definition doc_x1_x2_x1 :: json where
  "doc_x1_x2_x1 = JObj [(''comment'', comment), (''files'', JArr [entry_x1, entry_x2, entry_x1])]"

definition entry_no_id :: json where
  "entry_no_id = JObj [(''name'', JStr ''Y''), (''hash'', JNull), (''completed'', JBool False),
                       (''images'', JNull), (''chapters'', JNull)]"

definition doc_missing_id :: json where
  "doc_missing_id =
     JObj [(''comment'', comment), (''files'', JArr [entry_x1, entry_no_id, entry_x2])]"

definition entry_no_chapters :: json where
  "entry_no_chapters = JObj [(''name'', JStr ''a''), (''id'', JNull), (''hash'', JNull),
                             (''completed'', JBool False), (''images'', JInt 5)]"

definition doc_no_chapters :: json where
  "doc_no_chapters = JObj [(''comment'', comment), (''files'', JArr [entry_no_chapters])]"

text \<open>A tracker in memory, with tracking enabled, holding the given files.\<close>

definition tracker_with :: "file_info list \<Rightarrow> tracker" where
  "tracker_with fs =
     \<lparr>no_track = False, unlink_dir = None,
      data = LDict [(''comment'', comment)] (Some fs), effects = []\<rparr>"

section \<open>Equality of records\<close>

lemma py_eq_refl: "py_eq a a" by (simp add: py_eq_def)
lemma py_eq_sym: "py_eq a b \<Longrightarrow> py_eq b a" by (simp add: py_eq_def)
lemma py_eq_trans: "py_eq a b \<Longrightarrow> py_eq b c \<Longrightarrow> py_eq a c" by (simp add: py_eq_def)

lemma image_eq_trans: "image_eq a b \<Longrightarrow> image_eq b c \<Longrightarrow> image_eq a c"
  by (simp add: image_eq_def py_eq_def)
lemma chapter_eq_trans: "chapter_eq a b \<Longrightarrow> chapter_eq b c \<Longrightarrow> chapter_eq a c"
  by (simp add: chapter_eq_def py_eq_def)

lemma image_list_trans:
  assumes "list_all2 image_eq xs ys" and "list_all2 image_eq ys zs"
  shows "list_all2 image_eq xs zs"
proof (rule list_all2_trans)
  show "list_all2 image_eq xs ys" by fact
  show "list_all2 image_eq ys zs" by fact
  show "\<And>a b c. image_eq a b \<Longrightarrow> image_eq b c \<Longrightarrow> image_eq a c"
    by (rule image_eq_trans)
qed

lemma chapter_list_trans:
  assumes "list_all2 chapter_eq xs ys" and "list_all2 chapter_eq ys zs"
  shows "list_all2 chapter_eq xs zs"
proof (rule list_all2_trans)
  show "list_all2 chapter_eq xs ys" by fact
  show "list_all2 chapter_eq ys zs" by fact
  show "\<And>a b c. chapter_eq a b \<Longrightarrow> chapter_eq b c \<Longrightarrow> chapter_eq a c"
    by (rule chapter_eq_trans)
qed

lemma images_eq_trans:
  "rel_option (list_all2 image_eq) x y \<Longrightarrow> rel_option (list_all2 image_eq) y z
     \<Longrightarrow> rel_option (list_all2 image_eq) x z"
  by (cases x; cases y; cases z; simp) (rule image_list_trans)

lemma chapters_eq_trans:
  "rel_option (list_all2 chapter_eq) x y \<Longrightarrow> rel_option (list_all2 chapter_eq) y z
     \<Longrightarrow> rel_option (list_all2 chapter_eq) x z"
  by (cases x; cases y; cases z; simp) (rule chapter_list_trans)

lemma file_eq_trans: "file_eq a b \<Longrightarrow> file_eq b c \<Longrightarrow> file_eq a c"
proof -
  assume ab: "file_eq a b" and bc: "file_eq b c"
  have "rel_option (list_all2 image_eq) (fi_images a) (fi_images c)"
    using ab bc unfolding file_eq_def by (elim conjE) (rule images_eq_trans)
  moreover have "rel_option (list_all2 chapter_eq) (fi_chapters a) (fi_chapters c)"
    using ab bc unfolding file_eq_def by (elim conjE) (rule chapters_eq_trans)
  ultimately show ?thesis
    using ab bc unfolding file_eq_def py_eq_def by simp
qed

lemma image_eq_refl: "image_eq a a"
  by (simp add: image_eq_def py_eq_refl)

lemma chapter_eq_refl: "chapter_eq a a"
  by (simp add: chapter_eq_def py_eq_refl)

lemma file_eq_refl: "file_eq a a"
  unfolding file_eq_def
  by (simp add: py_eq_refl option.rel_refl list_all2_refl image_eq_refl chapter_eq_refl)

section \<open>Lookup by name\<close>

lemma get_loop_snoc:
  "get_loop name (fs @ [fi]) i acc =
     (if py_eq (fi_name fi) name then Some (i + length fs) else get_loop name fs i acc)"
  by (induction fs arbitrary: i acc) auto

lemma get_loop_bound:
  "get_loop name fs i None = Some j \<Longrightarrow> i \<le> j \<and> j < i + length fs"
proof (induction fs arbitrary: j rule: rev_induct)
  case Nil
  then show ?case by simp
next
  case (snoc x xs)
  then show ?case by (auto simp: get_loop_snoc split: if_splits)
qed

lemma get_index_last:
  "map_option (\<lambda>i. fs ! i) (get_index name fs) =
     (let ms = filter (\<lambda>x. py_eq (fi_name x) name) fs
      in if ms = [] then None else Some (last ms))"
proof (induction fs rule: rev_induct)
  case Nil
  then show ?case by (simp add: get_index_def)
next
  case (snoc x xs)
  show ?case
  proof (cases "py_eq (fi_name x) name")
    case True
    then show ?thesis by (simp add: get_index_def get_loop_snoc)
  next
    case False
    have "map_option (\<lambda>i. (xs @ [x]) ! i) (get_loop name xs 0 None)
            = map_option (\<lambda>i. xs ! i) (get_loop name xs 0 None)"
      by (cases "get_loop name xs 0 None") (auto dest: get_loop_bound simp: nth_append)
    with False snoc show ?thesis by (simp add: get_index_def get_loop_snoc)
  qed
qed

lemma get_loop_names:
  "map fi_name fs = map fi_name gs \<Longrightarrow> get_loop name fs i acc = get_loop name gs i acc"
proof (induction fs arbitrary: gs i acc)
  case Nil
  then show ?case by simp
next
  case (Cons f fs)
  then obtain g gs' where gs: "gs = g # gs'" by (cases gs) auto
  with Cons.prems have "fi_name f = fi_name g" and "map fi_name fs = map fi_name gs'"
    by simp_all
  with Cons.IH [of gs'] gs show ?case by simp
qed

lemma get_index_bound: "get_index name fs = Some i \<Longrightarrow> i < length fs"
  using get_loop_bound [of name fs 0 i] by (simp add: get_index_def)

lemma get_index_update:
  "i < length fs \<Longrightarrow> fi_name fi = fi_name (fs ! i) \<Longrightarrow>
     get_index name (fs[i := fi]) = get_index name fs"
  unfolding get_index_def
  by (rule get_loop_names) (simp add: map_update list_update_same_conv)

lemma get_ref_dict:
  "data s = LDict other (Some fs) \<Longrightarrow>
     get_ref s name = Inr (map_option (\<lambda>i. (i, fs ! i)) (get_index name fs))"
  by (simp add: get_ref_def bindE_def)

lemma get_dict:
  "data s = LDict other (Some fs) \<Longrightarrow>
     get s name = Inr (map_option (\<lambda>i. fs ! i) (get_index name fs))"
  by (simp add: get_def bindE_def)

lemma data_write_data: "data (write_data s) = data s"
  by (simp add: write_data_def emit_def)

lemma data_set_file:
  "data s = LDict other (Some fs) \<Longrightarrow> data (set_file i fi s) = LDict other (Some (fs[i := fi]))"
  by (simp add: set_file_def)

lemma get_after_update:
  assumes "data s = LDict other (Some fs)" and "get_index name fs = Some i"
    and "fi_name fi = fi_name (fs ! i)"
  shows "get (write_data (set_file i fi s)) name = Inr (Some fi)"
proof -
  have i: "i < length fs" using assms(2) by (rule get_index_bound)
  have "data (write_data (set_file i fi s)) = LDict other (Some (fs[i := fi]))"
    using assms(1) by (simp add: data_write_data data_set_file)
  then have "get (write_data (set_file i fi s)) name
               = Inr (map_option (\<lambda>j. fs[i := fi] ! j) (get_index name (fs[i := fi])))"
    by (rule get_dict)
  also have "get_index name (fs[i := fi]) = Some i"
    using i assms(2,3) by (simp add: get_index_update)
  finally show ?thesis using i by simp
qed

section \<open>The validation loop\<close>






lemma subseq_first_occurrences: "subseq (first_occurrences eq seen xs) xs"
  by (induction xs arbitrary: seen) auto



lemma mapE_Cons_Inr:
  "mapE f (x # xs) = Inr ys \<longleftrightarrow> (\<exists>y ys'. f x = Inr y \<and> mapE f xs = Inr ys' \<and> ys = y # ys')"
  by (cases "f x"; cases "mapE f xs") (auto simp: bindE_def)

lemma check_loop_records:
  assumes "mapE FileInfo entries = Inr recs"
    and "\<forall>x. list_ex (\<lambda>y. file_eq y x) seen = py_in file_eq x nf"
  shows "\<exists>s'. check_loop i entries nf s
                = Ok (Kept (nf @ first_occurrences file_eq seen recs)) s' \<and>
              no_track s' = no_track s \<and> data s' = data s"
  using assms
proof (induction entries arbitrary: recs i nf s seen)
  case Nil
  then show ?case by simp
next
  case (Cons e entries)
  from Cons.prems(1) [unfolded mapE_Cons_Inr]
  obtain r recs' where r: "FileInfo e = Inr r"
    and rest: "mapE FileInfo entries = Inr recs'" and recs: "recs = r # recs'"
    by blast
  show ?case
  proof (cases "py_in file_eq r nf")
    case True
    then obtain y where y: "y \<in> set nf" "file_eq y r" by (auto simp: py_in_def list_ex_iff)
    have inv: "\<forall>x. list_ex (\<lambda>y. file_eq y x) (seen @ [r]) = py_in file_eq x nf"
    proof
      fix x
      have "file_eq r x \<Longrightarrow> py_in file_eq x nf"
        using y file_eq_trans [of y r x] by (auto simp: py_in_def list_ex_iff)
      with Cons.prems(2) show "list_ex (\<lambda>y. file_eq y x) (seen @ [r]) = py_in file_eq x nf"
        by (auto simp: list_ex_iff)
    qed
    from Cons.IH [OF rest inv, of "Suc i" "emit (LogWarning i) s"]
    obtain s' where "check_loop (Suc i) entries nf (emit (LogWarning i) s)
                       = Ok (Kept (nf @ first_occurrences file_eq (seen @ [r]) recs')) s'"
      and "no_track s' = no_track s" and "data s' = data s"
      by (auto simp: emit_def)
    moreover have "list_ex (\<lambda>y. file_eq y r) seen" using True Cons.prems(2) by simp
    ultimately show ?thesis using r recs True by simp
  next
    case False
    have inv: "\<forall>x. list_ex (\<lambda>y. file_eq y x) (seen @ [r]) = py_in file_eq x (nf @ [r])"
      using Cons.prems(2) by (auto simp: py_in_def list_ex_iff)
    from Cons.IH [OF rest inv, of "Suc i" s]
    obtain s' where "check_loop (Suc i) entries (nf @ [r]) s
                       = Ok (Kept ((nf @ [r]) @ first_occurrences file_eq (seen @ [r]) recs')) s'"
      and "no_track s' = no_track s" and "data s' = data s"
      by auto
    moreover have "\<not> list_ex (\<lambda>y. file_eq y r) seen" using False Cons.prems(2) by simp
    ultimately show ?thesis using r recs False by simp
  qed
qed


lemma FileInfo_entry_x1: "FileInfo entry_x1 = Inr file_x1"
  by (simp add: FileInfo_def entry_x1_def file_x1_def bindE_def)

lemma FileInfo_entry_x2: "FileInfo entry_x2 = Inr file_x2"
  by (simp add: FileInfo_def entry_x2_def file_x2_def bindE_def)

lemma FileInfo_lacking_field:
  assumes "k \<in> {''name'', ''id'', ''hash'', ''completed'', ''images''}"
    and "map_of kvs k = None"
  shows "FileInfo (JObj kvs) = Inl KeyError"
  using assms by (auto simp: FileInfo_def bindE_def split: option.splits)

lemma check_data_kept:
  assumes "py_getitem d ''files'' = Inr files" and "py_iter files = Inr entries"
    and "mapE FileInfo entries = Inr recs"
  shows "\<exists>s'. check_data d s
                = Ok (LDict (other_items d) (Some (first_occurrences file_eq [] recs))) s' \<and>
              no_track s' = no_track s"
proof -
  have "\<forall>x. list_ex (\<lambda>y. file_eq y x) [] = py_in file_eq x []" by (simp add: py_in_def)
  from check_loop_records [OF assms(3) this, of 0 s]
  obtain s' where "check_loop 0 entries [] s
                     = Ok (Kept (first_occurrences file_eq [] recs)) s'"
    and "no_track s' = no_track s" by auto
  then show ?thesis using assms(1,2) by (simp add: check_data_def)
qed



lemma init_parsed:
  "init False u (Parsed d) =
     (case check_data d \<lparr>no_track = False, unlink_dir = u, data = LDict [] None,
                          effects = [QueueStart, FileExists, FileRead]\<rparr> of
        Raise e s' \<Rightarrow> Raise e s'
      | Ok l s' \<Rightarrow> Ok () ((write_data s')\<lparr>data := l\<rparr>))"
  by (simp add: init_def emit_def)

section \<open>Claims about lookup, removal and recreation\<close>

text \<open>
  C6: for every ledger state with a files sequence and every name, \<^verbatim>\<open>get(name)\<close> returns the
  last record of the sequence whose name equals the given name, and \<^verbatim>\<open>None\<close> when no
  record has that name.
\<close>

theorem get_returns_last_match:
  "get (s\<lparr>data := LDict other (Some fs)\<rparr>) name =
     Inr (let ms = filter (\<lambda>x. py_eq (fi_name x) name) fs
          in if ms = [] then None else Some (last ms))"
  by (simp add: get_def bindE_def get_index_last)

theorem get_returns_last_match_witness:
  "get (tracker_with [file_x1, file_x2]) (JStr ''X'') = Inr (Some file_x2) \<and>
   get (tracker_with [file_x1, file_x2]) (JStr ''Y'') = Inr None"
  using get_returns_last_match [where s = "tracker_with [file_x1, file_x2]"
          and other = "[(''comment'', comment)]" and fs = "[file_x1, file_x2]"
          and name = "JStr ''X''"]
        get_returns_last_match [where s = "tracker_with [file_x1, file_x2]"
          and other = "[(''comment'', comment)]" and fs = "[file_x1, file_x2]"
          and name = "JStr ''Y''"]
  by (simp add: tracker_with_def file_x1_def file_x2_def py_eq_def)

text \<open>
  C2, at the failing input: with two consecutive records named \<^verbatim>\<open>"X"\<close> in the files
  sequence, \<^verbatim>\<open>remove_file_info_from_name("X")\<close> removes the first and stops, because the
  iterator has moved past the position the second record shifted into. The second record
  remains and \<^verbatim>\<open>get("X")\<close> still returns it.
\<close>

theorem remove_leaves_second_of_two:
  "remove_file_info_from_name (tracker_with [file_x1, file_x2]) (JStr ''X'')
     = Ok () (tracker_with [file_x2]) \<and>
   get (tracker_with [file_x2]) (JStr ''X'') = Inr (Some file_x2)"
  by (simp add: remove_file_info_from_name_def tracker_with_def file_x1_def file_x2_def
        remove_loop.simps py_eq_def file_eq_def get_def get_index_def bindE_def)

text \<open>
  C10: when the tracking-disabled flag is set, \<^verbatim>\<open>recreate()\<close> returns at once and leaves
  the tracker as it was: the files sequence is not reset, and \<^verbatim>\<open>get\<close> and \<^verbatim>\<open>empty\<close> answer
  as before the call.
\<close>

theorem recreate_disabled_unchanged:
  "no_track s \<Longrightarrow>
     recreate s = Ok () s \<and>
     get (state_of (recreate s)) name = get s name \<and>
     empty (state_of (recreate s)) = empty s"
  by (simp add: recreate_def disabled_def)

theorem recreate_disabled_unchanged_witness:
  "no_track ((tracker_with [file_x1])\<lparr>no_track := True\<rparr>) \<and>
   recreate ((tracker_with [file_x1])\<lparr>no_track := True\<rparr>)
     = Ok () ((tracker_with [file_x1])\<lparr>no_track := True\<rparr>) \<and>
   get (state_of (recreate ((tracker_with [file_x1])\<lparr>no_track := True\<rparr>))) (JStr ''X'')
     = Inr (Some file_x1) \<and>
   empty (state_of (recreate ((tracker_with [file_x1])\<lparr>no_track := True\<rparr>))) = Inr False"
  using recreate_disabled_unchanged
          [where s = "(tracker_with [file_x1])\<lparr>no_track := True\<rparr>" and name = "JStr ''X''"]
  by (simp add: tracker_with_def file_x1_def get_def get_index_def empty_def bindE_def
        py_eq_def)

section \<open>Claims about loading\<close>

text \<open>
  C3, at the failing inputs: when the content of the backing file does not parse,
  \<^verbatim>\<open>_load\<close> writes the default data to the file but does not assign it, so \<^verbatim>\<open>self.data\<close> is
  still the \<^verbatim>\<open>{}\<close> of \<^verbatim>\<open>__init__\<close> and \<^verbatim>\<open>empty\<close> raises \<^verbatim>\<open>KeyError\<close>. When the document
  parses to a dict without \<^verbatim>\<open>"files"\<close>, \<^verbatim>\<open>_check_data\<close> returns \<^verbatim>\<open>False\<close> and \<^verbatim>\<open>_load\<close> stores
  it as \<^verbatim>\<open>self.data\<close>.
\<close>

theorem load_unparsable_keeps_empty_dict:
  "init False u Unparsable =
     Ok () \<lparr>no_track = False, unlink_dir = u, data = LDict [] None,
            effects = [QueueStart, FileExists, FileRead, WriteText TrackerFile]\<rparr> \<and>
   empty (state_of (init False u Unparsable)) = Inl KeyError \<and>
   data (state_of (init False u (Parsed (JObj [(''comment'', comment)])))) = LFalse \<and>
   empty (state_of (init False u (Parsed (JObj [(''comment'', comment)])))) = Inl TypeError"
  by (simp add: init_def emit_def write_new_def disabled_def empty_def bindE_def
        check_data_def write_data_def)

section \<open>Sorting and removal\<close>

lemma mapE_Inr_iff:
  fixes f :: "'a \<Rightarrow> error + 'b"
  shows "mapE f xs = Inr ks \<longleftrightarrow> map f xs = map Inr ks"
proof (induction xs arbitrary: ks)
  case Nil
  then show ?case by auto
next
  case (Cons x xs)
  show ?case
  proof (cases "f x")
    case (Inl e)
    then show ?thesis by (cases ks) (auto simp: bindE_def)
  next
    case (Inr k)
    show ?thesis
    proof (cases "mapE f xs")
      case (Inl e)
      with Cons.IH have "\<And>ks'. map f xs \<noteq> map Inr ks'" by simp
      with Inl Inr show ?thesis by (cases ks) (auto simp: bindE_def)
    next
      case (Inr ks')
      with Cons.IH [of ks'] have m: "map f xs = map Inr ks'" by simp
      have "inj (Inr :: 'b \<Rightarrow> error + 'b)" by (simp add: inj_def)
      then have "\<And>zs. map Inr ks' = map (Inr :: 'b \<Rightarrow> error + 'b) zs \<longleftrightarrow> ks' = zs"
        by simp
      with \<open>f x = Inr k\<close> Inr m show ?thesis by (cases ks) (auto simp: bindE_def)
    qed
  qed
qed

lemma mapE_total:
  "(\<forall>x \<in> set xs. \<exists>n. f x = Inr n) \<Longrightarrow> \<exists>ks. mapE f xs = Inr ks"
proof (induction xs)
  case Nil
  then show ?case by simp
next
  case (Cons x xs)
  then obtain n ks where "f x = Inr n" and "mapE f xs = Inr ks" by auto
  then show ?case by (simp add: bindE_def)
qed

lemma py_sorted_props:
  assumes "mapE f xs = Inr ks"
  shows "\<exists>ys ks'. py_sorted f xs = Inr ys \<and> mset ys = mset xs \<and>
                   mapE f ys = Inr ks' \<and> sorted ks'"
proof -
  let ?ps = "sort_key fst (zip ks xs)"
  have len: "length ks = length xs"
    using assms by (simp add: mapE_Inr_iff) (metis length_map)
  have keys: "f (snd p) = Inr (fst p)" if "p \<in> set (zip ks xs)" for p
  proof -
    from that obtain i where i: "i < length xs" and p: "p = (ks ! i, xs ! i)"
      using len by (auto simp: set_zip)
    from assms have "map f xs ! i = map Inr ks ! i" by (simp add: mapE_Inr_iff)
    with i len p show ?thesis by simp
  qed
  have res: "py_sorted f xs = Inr (map snd ?ps)"
    using assms by (simp add: py_sorted_def bindE_def)
  have "mset (map snd ?ps) = image_mset snd (mset (zip ks xs))" by simp
  also have "\<dots> = mset (map snd (zip ks xs))" by simp
  also have "\<dots> = mset xs" using len by simp
  finally have perm: "mset (map snd ?ps) = mset xs" .
  have "map f (map snd ?ps) = map Inr (map fst ?ps)"
    using keys by simp
  then have k: "mapE f (map snd ?ps) = Inr (map fst ?ps)" by (simp add: mapE_Inr_iff)
  have "sorted (map fst ?ps)" by (rule sorted_sort_key)
  with res perm k show ?thesis by blast
qed

lemma py_remove_None: "py_remove eq v xs = None \<longleftrightarrow> filter (\<lambda>x. eq x v) xs = []"
  by (induction xs) auto

lemma py_remove_Some:
  "py_remove eq v xs = Some ys \<Longrightarrow>
     length (filter (\<lambda>x. eq x v) xs) = Suc (length (filter (\<lambda>x. eq x v) ys)) \<and>
     set ys \<subseteq> set xs"
  by (induction xs arbitrary: ys) (auto split: if_splits)


lemma count_after_remove:
  "length (filter (\<lambda>x. eq x v) (case py_remove eq v xs of None \<Rightarrow> xs | Some r \<Rightarrow> r)) + 1
     = max 1 (length (filter (\<lambda>x. eq x v) xs))"
proof (cases "py_remove eq v xs")
  case None
  moreover from None have "filter (\<lambda>x. eq x v) xs = []" by (simp add: py_remove_None)
  ultimately show ?thesis by simp
next
  case (Some ys)
  then show ?thesis using py_remove_Some [OF Some] by simp
qed

lemma set_after_remove:
  "set (case py_remove eq v xs of None \<Rightarrow> xs | Some r \<Rightarrow> r) \<subseteq> set xs"
  by (cases "py_remove eq v xs") (auto dest: py_remove_Some)

section \<open>Claims about chapters and images\<close>

text \<open>
  C7: \<^verbatim>\<open>add_chapter_info(name, chapter_name, chapter_id)\<close> with a string id, on a tracker
  where \<^verbatim>\<open>get(name)\<close> finds a record with a chapters sequence. When the sequence already
  holds an entry with that id the call changes nothing (the tracker is the same, no
  write is queued). Otherwise the record \<^verbatim>\<open>{chapter_name, chapter_id}\<close> is appended to the
  sequence, and adding the same id once more changes nothing.
\<close>

theorem add_chapter_info_noop_or_append:
  assumes "data s = LDict other (Some fs)"
    and "get s name = Inr (Some fi)"
    and "fi_chapters fi = Some chs"
  shows "(list_ex (\<lambda>c. py_eq (ch_id c) (JStr cid)) chs \<longrightarrow>
            add_chapter_info s name cname (JStr cid) = Ok () s) \<and>
         (\<not> list_ex (\<lambda>c. py_eq (ch_id c) (JStr cid)) chs \<longrightarrow>
            (let s' = state_of (add_chapter_info s name cname (JStr cid))
             in add_chapter_info s name cname (JStr cid) = Ok () s' \<and>
                get s' name =
                  Inr (Some (fi\<lparr>fi_chapters :=
                                 Some (chs @ [\<lparr>ch_name = cname, ch_id = JStr cid\<rparr>])\<rparr>)) \<and>
                add_chapter_info s' name cname' (JStr cid) = Ok () s'))"
proof -
  from assms(1,2) obtain i where i: "get_index name fs = Some i" and fi: "fs ! i = fi"
    by (auto simp: get_dict)
  have ref: "get_ref s name = Inr (Some (i, fi))"
    using assms(1) i fi by (simp add: get_ref_dict)
  let ?new = "\<lparr>ch_name = cname, ch_id = JStr cid\<rparr>"
  let ?fi' = "fi\<lparr>fi_chapters := Some (chs @ [?new])\<rparr>"
  let ?s' = "write_data (set_file i ?fi' s)"
  have present: "list_ex (\<lambda>c. py_eq (ch_id c) (JStr cid)) chs \<Longrightarrow>
                   add_chapter_info s name cname (JStr cid) = Ok () s"
    using ref assms(3) by (simp add: add_chapter_info_def)
  have absent: "\<not> list_ex (\<lambda>c. py_eq (ch_id c) (JStr cid)) chs \<Longrightarrow>
                  add_chapter_info s name cname (JStr cid) = Ok () ?s'"
    using ref assms(3) by (simp add: add_chapter_info_def)
  have name: "fi_name ?fi' = fi_name (fs ! i)" using fi by simp
  have get': "get ?s' name = Inr (Some ?fi')"
    using assms(1) i name by (rule get_after_update)
  have ilen: "i < length fs" using i by (rule get_index_bound)
  have data': "data ?s' = LDict other (Some (fs[i := ?fi']))"
    using assms(1) by (simp add: data_write_data data_set_file)
  have "get_index name (fs[i := ?fi']) = Some i"
    using ilen name i by (simp add: get_index_update)
  then have ref': "get_ref ?s' name = Inr (Some (i, ?fi'))"
    using data' ilen by (simp add: get_ref_dict)
  have again: "add_chapter_info ?s' name cname' (JStr cid) = Ok () ?s'"
    using ref' by (simp add: add_chapter_info_def py_eq_refl)
  show ?thesis using present absent get' again by (simp add: Let_def)
qed

theorem add_chapter_info_noop_or_append_witness:
  "add_chapter_info (tracker_with [file_vol]) (JStr ''Vol. 1'') (JStr ''Ch. 1'') (JStr ''id1'')
     = Ok () (tracker_with [file_vol]) \<and>
   add_chapter_info (tracker_with [file_vol]) (JStr ''Vol. 1'') (JStr ''Ch. 2'') (JStr ''id2'')
     = Ok () ((tracker_with
                [file_vol\<lparr>fi_chapters :=
                    Some [\<lparr>ch_name = JStr ''Ch. 1'', ch_id = JStr ''id1''\<rparr>,
                          \<lparr>ch_name = JStr ''Ch. 2'', ch_id = JStr ''id2''\<rparr>]\<rparr>])
              \<lparr>effects := [QueueSubmit]\<rparr>) \<and>
   get (state_of (add_chapter_info (tracker_with [file_vol])
                    (JStr ''Vol. 1'') (JStr ''Ch. 2'') (JStr ''id2''))) (JStr ''Vol. 1'')
     = Inr (Some (file_vol\<lparr>fi_chapters :=
                    Some [\<lparr>ch_name = JStr ''Ch. 1'', ch_id = JStr ''id1''\<rparr>,
                          \<lparr>ch_name = JStr ''Ch. 2'', ch_id = JStr ''id2''\<rparr>]\<rparr>))"
proof -
  have d: "data (tracker_with [file_vol]) = LDict [(''comment'', comment)] (Some [file_vol])"
    by (simp add: tracker_with_def)
  have g: "get (tracker_with [file_vol]) (JStr ''Vol. 1'') = Inr (Some file_vol)"
    by (simp add: tracker_with_def file_vol_def get_def get_index_def bindE_def py_eq_def)
  have c: "fi_chapters file_vol = Some [\<lparr>ch_name = JStr ''Ch. 1'', ch_id = JStr ''id1''\<rparr>]"
    by (simp add: file_vol_def)
  have p1: "list_ex (\<lambda>c. py_eq (ch_id c) (JStr ''id1''))
              [\<lparr>ch_name = JStr ''Ch. 1'', ch_id = JStr ''id1''\<rparr>]"
    by (simp add: py_eq_def)
  have p2: "\<not> list_ex (\<lambda>c. py_eq (ch_id c) (JStr ''id2''))
              [\<lparr>ch_name = JStr ''Ch. 1'', ch_id = JStr ''id1''\<rparr>]"
    by (simp add: py_eq_def)
  have e: "add_chapter_info (tracker_with [file_vol]) (JStr ''Vol. 1'') (JStr ''Ch. 2'')
             (JStr ''id2'')
           = Ok () ((tracker_with
                [file_vol\<lparr>fi_chapters :=
                    Some [\<lparr>ch_name = JStr ''Ch. 1'', ch_id = JStr ''id1''\<rparr>,
                          \<lparr>ch_name = JStr ''Ch. 2'', ch_id = JStr ''id2''\<rparr>]\<rparr>])
              \<lparr>effects := [QueueSubmit]\<rparr>)"
    by (simp add: add_chapter_info_def get_ref_def get_index_def bindE_def tracker_with_def
          file_vol_def py_eq_def set_file_def write_data_def disabled_def emit_def)
  from add_chapter_info_noop_or_append [OF d g c, of "''id1''" "JStr ''Ch. 1''"] p1
       add_chapter_info_noop_or_append [OF d g c, of "''id2''" "JStr ''Ch. 2''"] p2 e
  show ?thesis by (simp add: Let_def)
qed

text \<open>
  C5 (as amended): \<^verbatim>\<open>add_image_info\<close> on a tracker where \<^verbatim>\<open>get(name)\<close> finds a record with
  an images sequence, all of whose filenames, and the new one, yield a page number. The
  call succeeds; it removes the first image record equal to the new one if there is one
  (one record at most), appends the new record and sorts by page number: the new
  sequence is a permutation of the sequence after removal plus the new record, its page
  numbers are ascending, and it holds \<open>max 1 k\<close> records equal to the new one when the old
  sequence held \<open>k\<close>, hence exactly one whenever the old sequence held at most one.
\<close>

theorem add_image_info_replaces_and_sorts:
  assumes d: "data s = LDict other (Some fs)"
    and g: "get s name = Inr (Some fi)"
    and im: "fi_images fi = Some ims"
    and new: "new = \<lparr>im_name = img_name, im_hash = fhash, im_chapter_id = chap_id\<rparr>"
    and pages: "\<forall>x \<in> set (ims @ [new]). \<exists>n. get_page_image x = Inr n"
  shows "\<exists>ims' ks.
           add_image_info s name img_name fhash chap_id
             = Ok () (state_of (add_image_info s name img_name fhash chap_id)) \<and>
           get (state_of (add_image_info s name img_name fhash chap_id)) name
             = Inr (Some (fi\<lparr>fi_images := Some ims'\<rparr>)) \<and>
           mset ims'
             = mset (case py_remove image_eq new ims of None \<Rightarrow> ims | Some r \<Rightarrow> r) + {#new#} \<and>
           mapE get_page_image ims' = Inr ks \<and> sorted ks \<and>
           length (filter (\<lambda>x. image_eq x new) ims')
             = max 1 (length (filter (\<lambda>x. image_eq x new) ims))"
proof -
  from d g obtain i where i: "get_index name fs = Some i" and fi: "fs ! i = fi"
    by (auto simp: get_dict)
  have ilen: "i < length fs" using i by (rule get_index_bound)
  have ref: "get_ref s name = Inr (Some (i, fi))"
    using d i fi by (simp add: get_ref_dict)
  let ?rem = "case py_remove image_eq new ims of None \<Rightarrow> ims | Some r \<Rightarrow> r"
  let ?app = "?rem @ [new]"
  have "set ?rem \<subseteq> set ims" by (rule set_after_remove)
  with pages have "\<forall>x \<in> set ?app. \<exists>n. get_page_image x = Inr n" by auto
  then obtain ks0 where "mapE get_page_image ?app = Inr ks0"
    using mapE_total by blast
  then obtain ys ks where ys: "py_sorted get_page_image ?app = Inr ys"
    and perm: "mset ys = mset ?app"
    and keys: "mapE get_page_image ys = Inr ks" and srt: "sorted ks"
    using py_sorted_props by blast
  let ?s1 = "set_file i (fi\<lparr>fi_images := Some ?app\<rparr>) s"
  let ?fi' = "fi\<lparr>fi_images := Some ys\<rparr>"
  let ?s' = "write_data (set_file i ?fi' ?s1)"
  have run: "add_image_info s name img_name fhash chap_id = Ok () ?s'"
    using ref im ys by (simp add: add_image_info_def Let_def new)
  have d1: "data ?s1 = LDict other (Some (fs[i := fi\<lparr>fi_images := Some ?app\<rparr>]))"
    using d by (rule data_set_file)
  have i1: "get_index name (fs[i := fi\<lparr>fi_images := Some ?app\<rparr>]) = Some i"
    using ilen fi i by (simp add: get_index_update)
  have n1: "fi_name ?fi' = fi_name (fs[i := fi\<lparr>fi_images := Some ?app\<rparr>] ! i)"
    using ilen by simp
  have get': "get ?s' name = Inr (Some ?fi')"
    using d1 i1 n1 by (rule get_after_update)
  have "length (filter (\<lambda>x. image_eq x new) ys)
          = size (filter_mset (\<lambda>x. image_eq x new) (mset ys))"
    by (simp flip: mset_filter)
  also have "\<dots> = length (filter (\<lambda>x. image_eq x new) ?app)"
    by (simp add: perm flip: mset_filter)
  also have "\<dots> = length (filter (\<lambda>x. image_eq x new) ?rem) + 1"
    by (simp add: image_eq_refl)
  also have "\<dots> = max 1 (length (filter (\<lambda>x. image_eq x new) ims))"
    by (rule count_after_remove)
  finally have cnt: "length (filter (\<lambda>x. image_eq x new) ys)
                       = max 1 (length (filter (\<lambda>x. image_eq x new) ims))" .
  have "mset ys = mset ?rem + {#new#}" using perm by simp
  with run get' keys srt cnt show ?thesis by auto
qed

text \<open>
  The scenario of the claim: after \<^verbatim>\<open>add_file_info("Ch.1", "abc", None, False, True)\<close> and
  \<^verbatim>\<open>add_image_info("Ch.1", "1.png", "h1", "abc")\<close>, adding \<^verbatim>\<open>2.png\<close> leaves exactly the two
  records in page order, and adding \<^verbatim>\<open>2.png\<close> a second time leaves the same two.
\<close>

theorem add_image_info_replaces_and_sorts_witness:
  "get (state_of (add_image_info
          (state_of (add_image_info
             (state_of (add_file_info (tracker_with []) (JStr ''Ch.1'') (JStr ''abc'') JNull
                          False True))
             (JStr ''Ch.1'') (JStr ''1.png'') (JStr ''h1'') (JStr ''abc'')))
          (JStr ''Ch.1'') (JStr ''2.png'') (JStr ''h2'') (JStr ''abc''))) (JStr ''Ch.1'')
     = Inr (Some (file_ch1\<lparr>fi_images := Some [img_1, img_2]\<rparr>)) \<and>
   get (state_of (add_image_info
          ((tracker_with [file_ch1\<lparr>fi_images := Some [img_1, img_2]\<rparr>])
             \<lparr>effects := [QueueSubmit, QueueSubmit, QueueSubmit]\<rparr>)
          (JStr ''Ch.1'') (JStr ''2.png'') (JStr ''h2'') (JStr ''abc''))) (JStr ''Ch.1'')
     = Inr (Some (file_ch1\<lparr>fi_images := Some [img_1, img_2]\<rparr>))"
proof -
  let ?s2 = "(tracker_with [file_ch1\<lparr>fi_images := Some [img_1]\<rparr>])
               \<lparr>effects := [QueueSubmit, QueueSubmit]\<rparr>"
  let ?s3 = "(tracker_with [file_ch1\<lparr>fi_images := Some [img_1, img_2]\<rparr>])
               \<lparr>effects := [QueueSubmit, QueueSubmit, QueueSubmit]\<rparr>"
  have p1: "get_page_image img_1 = Inr 1"
    by (simp add: img_1_def get_page_image_def match_page_def is_digit_def py_int_def)
  have p2: "get_page_image img_2 = Inr 2"
    by (simp add: img_2_def get_page_image_def match_page_def is_digit_def py_int_def)
  have s1: "state_of (add_file_info (tracker_with []) (JStr ''Ch.1'') (JStr ''abc'') JNull
                        False True)
              = (tracker_with [file_ch1])\<lparr>effects := [QueueSubmit]\<rparr>"
    by (simp add: add_file_info_def tracker_with_def FileInfo_def bindE_def write_data_def
          disabled_def emit_def file_ch1_def)
  have s2: "state_of (add_image_info ((tracker_with [file_ch1])\<lparr>effects := [QueueSubmit]\<rparr>)
                        (JStr ''Ch.1'') (JStr ''1.png'') (JStr ''h1'') (JStr ''abc'')) = ?s2"
    using p1
    by (simp add: add_image_info_def get_ref_def get_index_def tracker_with_def bindE_def
          file_ch1_def img_1_def py_eq_def py_sorted_def set_file_def write_data_def
          disabled_def emit_def)
  have s3: "state_of (add_image_info ?s2
                        (JStr ''Ch.1'') (JStr ''2.png'') (JStr ''h2'') (JStr ''abc'')) = ?s3"
    using p1 p2
    by (simp add: add_image_info_def get_ref_def get_index_def tracker_with_def bindE_def
          file_ch1_def img_1_def img_2_def py_eq_def image_eq_def py_sorted_def set_file_def
          write_data_def disabled_def emit_def)
  have d: "data ?s3 = LDict [(''comment'', comment)]
                        (Some [file_ch1\<lparr>fi_images := Some [img_1, img_2]\<rparr>])"
    by (simp add: tracker_with_def)
  have g: "get ?s3 (JStr ''Ch.1'') = Inr (Some (file_ch1\<lparr>fi_images := Some [img_1, img_2]\<rparr>))"
    by (simp add: tracker_with_def get_def get_index_def bindE_def file_ch1_def py_eq_def)
  have i: "fi_images (file_ch1\<lparr>fi_images := Some [img_1, img_2]\<rparr>) = Some [img_1, img_2]"
    by simp
  have n: "img_2 = \<lparr>im_name = JStr ''2.png'', im_hash = JStr ''h2'',
                     im_chapter_id = JStr ''abc''\<rparr>"
    by (simp add: img_2_def)
  have p: "\<forall>x \<in> set ([img_1, img_2] @ [img_2]). \<exists>n. get_page_image x = Inr n"
    using p1 p2 by simp
  have again: "get (state_of (add_image_info ?s3
                     (JStr ''Ch.1'') (JStr ''2.png'') (JStr ''h2'') (JStr ''abc''))) (JStr ''Ch.1'')
                 = Inr (Some (file_ch1\<lparr>fi_images := Some [img_1, img_2]\<rparr>))"
    using p1 p2
    by (simp add: add_image_info_def get_def get_ref_def get_index_def tracker_with_def
          bindE_def file_ch1_def img_1_def img_2_def py_eq_def image_eq_def py_sorted_def
          set_file_def write_data_def disabled_def emit_def)
  from add_image_info_replaces_and_sorts [OF d g i n p] s1 s2 s3 g again
  show ?thesis by simp
qed

text \<open>
  C5, as stated, fails when the images sequence already holds two records equal to the
  new one, as it does after loading a document that lists the same image twice: one of
  the two old records stays, so the sequence holds two occurrences after the call.
\<close>

theorem add_image_info_keeps_second_copy:
  "data (state_of (init False None (Parsed doc_dup_images))) = LDict [(''comment'', comment)] (Some [file_dup]) \<and>
   fi_images file_dup = Some [img_1, img_1] \<and>
   get (state_of (add_image_info (state_of (init False None (Parsed doc_dup_images)))
                    (JStr ''Ch.1'') (JStr ''1.png'') (JStr ''h1'') (JStr ''abc''))) (JStr ''Ch.1'')
     = Inr (Some file_dup)"
proof -
  have p1: "get_page_image img_1 = Inr 1"
    by (simp add: img_1_def get_page_image_def match_page_def is_digit_def py_int_def)
  have f: "FileInfo (JObj [(''name'', JStr ''Ch.1''), (''id'', JStr ''abc''),
                           (''hash'', JNull), (''completed'', JBool False),
                           (''images'', JArr [entry_img_1, entry_img_1]),
                           (''chapters'', JNull)]) = Inr file_dup"
    by (simp add: FileInfo_def ImageInfo_def bindE_def entry_img_1_def file_dup_def
          file_ch1_def img_1_def)
  have l: "init False None (Parsed doc_dup_images)
             = Ok () ((tracker_with [file_dup])
                        \<lparr>effects := [QueueStart, FileExists, FileRead, QueueSubmit]\<rparr>)"
    using f
    by (simp add: init_def doc_dup_images_def check_data_def py_in_def emit_def
          write_data_def disabled_def tracker_with_def)
  have a: "get (state_of (add_image_info
                  ((tracker_with [file_dup])
                     \<lparr>effects := [QueueStart, FileExists, FileRead, QueueSubmit]\<rparr>)
                  (JStr ''Ch.1'') (JStr ''1.png'') (JStr ''h1'') (JStr ''abc''))) (JStr ''Ch.1'')
             = Inr (Some file_dup)"
    using p1
    by (simp add: add_image_info_def get_def get_ref_def get_index_def tracker_with_def
          bindE_def file_dup_def file_ch1_def img_1_def py_eq_def image_eq_def py_sorted_def
          set_file_def write_data_def disabled_def emit_def Let_def)
  show ?thesis using l a by (simp add: tracker_with_def file_dup_def)
qed

section \<open>Disabled mode\<close>

lemma set_file_frame:
  "no_track (set_file i fi s) = no_track s" "effects (set_file i fi s) = effects s"
  by (simp_all add: set_file_def split: ledger.splits option.splits)

lemma write_data_disabled: "no_track s \<Longrightarrow> write_data s = s"
  by (simp add: write_data_def disabled_def)

lemma add_file_info_disabled:
  "no_track s \<Longrightarrow>
     no_track (state_of (add_file_info s name fid fhash ni nc)) \<and>
     effects (state_of (add_file_info s name fid fhash ni nc)) = effects s"
  by (simp add: add_file_info_def write_data_disabled split: sum.splits)

lemma add_image_info_disabled:
  "no_track s \<Longrightarrow>
     no_track (state_of (add_image_info s name img fhash chap)) \<and>
     effects (state_of (add_image_info s name img fhash chap)) = effects s"
  by (simp add: add_image_info_def Let_def write_data_disabled set_file_frame
        split: sum.splits option.splits prod.splits)

lemma add_chapter_info_disabled:
  "no_track s \<Longrightarrow>
     no_track (state_of (add_chapter_info s name cname cid)) \<and>
     effects (state_of (add_chapter_info s name cname cid)) = effects s"
  by (simp add: add_chapter_info_def Let_def write_data_disabled set_file_frame
        split: sum.splits option.splits prod.splits)

lemma toggle_complete_disabled:
  "no_track s \<Longrightarrow>
     no_track (state_of (toggle_complete s name c)) \<and>
     effects (state_of (toggle_complete s name c)) = effects s"
  by (simp add: toggle_complete_def write_data_disabled set_file_frame
        split: sum.splits option.splits prod.splits)

lemma remove_file_info_disabled:
  "no_track s \<Longrightarrow>
     no_track (state_of (remove_file_info_from_name s name)) \<and>
     effects (state_of (remove_file_info_from_name s name)) = effects s"
  by (simp add: remove_file_info_from_name_def split: sum.splits)

lemma exec_disabled:
  "no_track s \<Longrightarrow> no_track (exec op s) \<and> effects (exec op s) = effects s"
proof (cases op)
  case (AddFile name fid fhash ni nc)
  then show "no_track s \<Longrightarrow> ?thesis" using add_file_info_disabled by simp
next
  case (AddImage name img fhash chap)
  then show "no_track s \<Longrightarrow> ?thesis" using add_image_info_disabled by simp
next
  case (AddChapter name cname cid)
  then show "no_track s \<Longrightarrow> ?thesis" using add_chapter_info_disabled by simp
next
  case (ToggleComplete name c)
  then show "no_track s \<Longrightarrow> ?thesis" using toggle_complete_disabled by simp
next
  case (RemoveFile name)
  then show "no_track s \<Longrightarrow> ?thesis" using remove_file_info_disabled by simp
next
  case Recreate
  then show "no_track s \<Longrightarrow> ?thesis" by (simp add: recreate_def disabled_def)
next
  case Shutdown
  then show "no_track s \<Longrightarrow> ?thesis" by (simp add: shutdown_def disabled_def)
qed

lemma run_disabled:
  "no_track s \<Longrightarrow> no_track (run ops s) \<and> effects (run ops s) = effects s"
proof (induction ops arbitrary: s)
  case Nil
  then show ?case by (simp add: run_def)
next
  case (Cons op ops)
  have "no_track (exec op s)" and "effects (exec op s) = effects s"
    using exec_disabled [OF Cons.prems] by simp_all
  with Cons.IH [of "exec op s"] show ?case by (simp add: run_def)
qed

lemma init_disabled:
  "init True u dsk = Ok () \<lparr>no_track = True, unlink_dir = u, data = default_data, effects = []\<rparr>"
  by (simp add: init_def write_new_def disabled_def)

lemma init_no_file:
  "init False u NoFile =
     Ok () \<lparr>no_track = False, unlink_dir = u, data = default_data,
            effects = [QueueStart, FileExists, WriteText TrackerFile]\<rparr>"
  by (simp add: init_def write_new_def disabled_def emit_def)

text \<open>
  C8: when \<^verbatim>\<open>config.no_track\<close> is set, \<^verbatim>\<open>__init__\<close> and every run of operations after it
  leave the trace empty: no file is read, written or deleted, nothing is queued and the
  queue worker is not started. \<^verbatim>\<open>empty\<close> and \<^verbatim>\<open>get\<close> on the new tracker give the same
  results as on a tracker created with tracking enabled and no backing file.
\<close>

theorem disabled_mode_no_io:
  "effects (run ops (state_of (init True u dsk))) = [] \<and>
   effects (state_of (init True u dsk)) = [] \<and>
   empty (state_of (init True u dsk)) = empty (state_of (init False u' NoFile)) \<and>
   empty (state_of (init True u dsk)) = Inr True \<and>
   get (state_of (init True u dsk)) name = get (state_of (init False u' NoFile)) name \<and>
   get (state_of (init True u dsk)) name = Inr None"
proof -
  have "no_track (state_of (init True u dsk))" and e: "effects (state_of (init True u dsk)) = []"
    by (simp_all add: init_disabled)
  then have "effects (run ops (state_of (init True u dsk))) = []"
    using run_disabled [of "state_of (init True u dsk)" ops] by simp
  moreover have "empty (state_of (init True u dsk)) = Inr True"
    and "empty (state_of (init False u' NoFile)) = Inr True"
    by (simp_all add: init_disabled init_no_file empty_def default_data_def bindE_def)
  moreover have "get (state_of (init True u dsk)) name = Inr None"
    and "get (state_of (init False u' NoFile)) name = Inr None"
    by (simp_all add: init_disabled init_no_file get_def get_index_def default_data_def bindE_def)
  ultimately show ?thesis using e by simp
qed

theorem disabled_mode_no_io_witness:
  "effects (run [AddFile (JStr ''Ch.1'') (JStr ''abc'') JNull False True,
                 AddImage (JStr ''Ch.1'') (JStr ''1.png'') (JStr ''h1'') (JStr ''abc''),
                 ToggleComplete (JStr ''Ch.1'') (JBool True),
                 Recreate, Shutdown]
             (state_of (init True None (Parsed doc_two_x)))) = [] \<and>
   effects (state_of (init True None (Parsed doc_two_x))) = [] \<and>
   empty (state_of (init True None (Parsed doc_two_x))) = empty (state_of (init False None NoFile)) \<and>
   empty (state_of (init True None (Parsed doc_two_x))) = Inr True \<and>
   get (state_of (init True None (Parsed doc_two_x))) (JStr ''X'')
     = get (state_of (init False None NoFile)) (JStr ''X'') \<and>
   get (state_of (init True None (Parsed doc_two_x))) (JStr ''X'') = Inr None"
  by (rule disabled_mode_no_io)

section \<open>Claims about validation\<close>




text \<open>
  C9: when every entry of the files sequence of a parsed document can be built into a
  record (validation does not recreate the ledger), loading succeeds and the in-memory
  files sequence consists of the first occurrences of the records, in the order in which
  they appear in the document: it is a subsequence of the sequence of all records.
\<close>

theorem validation_preserves_order:
  assumes "py_getitem d ''files'' = Inr files" and "py_iter files = Inr entries"
    and "mapE FileInfo entries = Inr recs"
  shows "init False u (Parsed d) = Ok () (state_of (init False u (Parsed d))) \<and>
         files_of (data (state_of (init False u (Parsed d))))
           = Inr (first_occurrences file_eq [] recs) \<and>
         subseq (first_occurrences file_eq [] recs) recs"
proof -
  let ?s = "\<lparr>no_track = False, unlink_dir = u, data = LDict [] None,
             effects = [QueueStart, FileExists, FileRead]\<rparr>"
  from check_data_kept [OF assms, of ?s]
  obtain s1 where
    "check_data d ?s = Ok (LDict (other_items d) (Some (first_occurrences file_eq [] recs))) s1"
    by blast
  then have "init False u (Parsed d)
               = Ok () ((write_data s1)
                          \<lparr>data := LDict (other_items d)
                                     (Some (first_occurrences file_eq [] recs))\<rparr>)"
    by (simp add: init_parsed)
  then show ?thesis by (simp add: subseq_first_occurrences)
qed

theorem validation_preserves_order_witness:
  "files_of (data (state_of (init False None (Parsed doc_x1_x2_x1)))) = Inr [file_x1, file_x2] \<and>
   subseq [file_x1, file_x2] [file_x1, file_x2, file_x1]"
proof -
  have 1: "py_getitem doc_x1_x2_x1 ''files'' = Inr (JArr [entry_x1, entry_x2, entry_x1])"
    by (simp add: doc_x1_x2_x1_def)
  have 2: "py_iter (JArr [entry_x1, entry_x2, entry_x1]) = Inr [entry_x1, entry_x2, entry_x1]"
    by simp
  have 3: "mapE FileInfo [entry_x1, entry_x2, entry_x1] = Inr [file_x1, file_x2, file_x1]"
    by (simp add: FileInfo_entry_x1 FileInfo_entry_x2 bindE_def)
  have eq: "file_eq file_x1 file_x1" by (rule file_eq_refl)
  have ne: "\<not> file_eq file_x1 file_x2"
    by (simp add: file_eq_def file_x1_def file_x2_def py_eq_def)
  have 4: "first_occurrences file_eq [] [file_x1, file_x2, file_x1] = [file_x1, file_x2]"
    using eq ne by simp
  from validation_preserves_order [OF 1 2 3] 4 show ?thesis by simp
qed

text \<open>
  C4, at the failing input: a document whose second entry has no \<^verbatim>\<open>id\<close>. Building the
  record raises \<^verbatim>\<open>KeyError\<close>; \<^verbatim>\<open>_check_data\<close> logs index 1 and calls
  \<^verbatim>\<open>delete_file(self.path)\<close>. The path it hands over is the manga directory, not the tracker
  file that \<^verbatim>\<open>recreate\<close> deletes with \<^verbatim>\<open>delete_file(self.file)\<close>, so the tracker file is not
  deleted. When the call raises on the directory, the exception leaves \<^verbatim>\<open>_check_data\<close>,
  \<^verbatim>\<open>_load\<close> and \<^verbatim>\<open>__init__\<close>: nothing is written, \<^verbatim>\<open>self.data\<close> is still \<^verbatim>\<open>{}\<close> and there is
  no files sequence. Only when the call returns does the code write the default data and
  end with an empty files sequence.
\<close>

theorem missing_field_deletes_directory:
  "init False (Some OSError) (Parsed doc_missing_id)
     = Raise OSError
         \<lparr>no_track = False, unlink_dir = Some OSError, data = LDict [] None,
          effects = [QueueStart, FileExists, FileRead, LogError 1, DeleteFile TrackerDir]\<rparr> \<and>
   files_of (data (state_of (init False (Some OSError) (Parsed doc_missing_id)))) = Inl KeyError \<and>
   DeleteFile TrackerFile
     \<notin> set (effects (state_of (init False (Some OSError) (Parsed doc_missing_id)))) \<and>
   init False None (Parsed doc_missing_id)
     = Ok ()
         \<lparr>no_track = False, unlink_dir = None, data = default_data,
          effects = [QueueStart, FileExists, FileRead, LogError 1, DeleteFile TrackerDir,
                     WriteText TrackerFile, QueueSubmit]\<rparr> \<and>
   DeleteFile TrackerFile \<notin> set (effects (state_of (init False None (Parsed doc_missing_id))))"
proof -
  have k: "FileInfo entry_no_id = Inl KeyError"
    by (simp add: FileInfo_def entry_no_id_def bindE_def)
  have raised: "init False (Some OSError) (Parsed doc_missing_id)
     = Raise OSError
         \<lparr>no_track = False, unlink_dir = Some OSError, data = LDict [] None,
          effects = [QueueStart, FileExists, FileRead, LogError 1, DeleteFile TrackerDir]\<rparr>"
    using k
    by (simp add: init_parsed doc_missing_id_def check_data_def FileInfo_entry_x1 py_in_def
          emit_def)
  have returned: "init False None (Parsed doc_missing_id)
     = Ok ()
         \<lparr>no_track = False, unlink_dir = None, data = default_data,
          effects = [QueueStart, FileExists, FileRead, LogError 1, DeleteFile TrackerDir,
                     WriteText TrackerFile, QueueSubmit]\<rparr>"
    using k
    by (simp add: init_parsed doc_missing_id_def check_data_def FileInfo_entry_x1 py_in_def
          emit_def write_new_def write_data_def disabled_def)
  show ?thesis by (simp add: raised returned)
qed

text \<open>
  Validation also misses the recreation when an entry is ill-typed. For a document whose
  only entry lacks \<^verbatim>\<open>chapters\<close> and has the number 5 as \<^verbatim>\<open>images\<close>, building the record
  raises \<^verbatim>\<open>TypeError\<close> before the missing field is looked up; \<^verbatim>\<open>_check_data\<close> catches only
  \<^verbatim>\<open>KeyError\<close>, and \<^verbatim>\<open>__init__\<close> raises with \<^verbatim>\<open>self.data\<close> still \<^verbatim>\<open>{}\<close>.
\<close>

lemma ill_typed_entry_aborts_load:
  "py_getitem entry_no_chapters ''chapters'' = Inl KeyError \<and>
   init False None (Parsed doc_no_chapters)
     = Raise TypeError \<lparr>no_track = False, unlink_dir = None, data = LDict [] None,
                        effects = [QueueStart, FileExists, FileRead]\<rparr> \<and>
   files_of (data (state_of (init False None (Parsed doc_no_chapters)))) = Inl KeyError"
  by (simp add: init_parsed doc_no_chapters_def entry_no_chapters_def check_data_def
        FileInfo_def bindE_def)

end
